theory Spec2Isabelle
  imports Complex_Main "HOL-Library.Multiset"
begin

section \<open>Data model of live\_topstats.py\<close>

text \<open>
  A stat record is the dictionary that the team view delivers for a player, a commander or
  a squad.  The keys read by the plugin are fields of one record type; a squad record uses
  \<open>name\<close>, \<open>team\<close> and the six counters only.  The counters are Python integers.
\<close>

datatype py_error = UnboundLocalError | KeyError | ZeroDivisionError

datatype team = Allies | Axis

record sample =
  name :: string
  team :: team
  role :: string
  player_id :: string
  unit_name :: string
  kills :: int
  deaths :: int
  combat :: int
  offense :: int
  defense :: int
  support :: int

text \<open>
  A number is a Python \<open>int\<close> or a Python \<open>float\<close>; a float carries the rational that
  the double denotes.  \<open>num_val\<close> is the number that comparisons read.
\<close>

datatype pynum = PInt int | PFloat rat

fun num_val :: "pynum \<Rightarrow> rat" where
  "num_val (PInt i) = of_int i"
| "num_val (PFloat q) = q"

text \<open>The language index \<open>LANG\<close>: 0 english, 1 french, 2 german, 3 brazilian portuguese.\<close>

datatype lang = English | French | German | Portuguese

record config =
  LANG :: lang
  OFFENSEDEFENSE_RATIO :: pynum
  COMBATSUPPORT_RATIO :: pynum
  TOPS_CHAT :: int
  TOPS_CHAT_DETAIL_SQUADS :: int
  TOPS_MATCHEND :: int
  TOPS_MATCHEND_DETAIL_SQUADS :: int
  VIP_WINNERS :: int
  VIP_COMMANDER_MIN_PLAYTIME_MINS :: int
  VIP_COMMANDER_MIN_SUPPORT_SCORE :: int
  SEED_LIMIT :: int
  VIP_HOURS :: int
  local_time :: "int \<Rightarrow> string"

section \<open>Floating point\<close>

text \<open>
  A Python \<open>float\<close> is an IEEE 754 double.  A double is represented by the rational number
  it denotes, and \<open>fl\<close> rounds a rational to the nearest double, a tie going to the even
  significand of 53 bits; below 2 to the power -1022 the spacing is that of the subnormal
  numbers.
  Overflow of the exponent range is not represented.
\<close>

function bits :: "int \<Rightarrow> nat" where
  "bits n = (if n \<le> 0 then 0 else Suc (bits (n div 2)))"
  by pat_completeness auto
termination
  by (relation "measure nat") auto

declare bits.simps [simp del]

definition pow2 :: "int \<Rightarrow> rat" where
  "pow2 e = (if 0 \<le> e then 2 ^ nat e else 1 / 2 ^ nat (- e))"

text \<open>The nearest integer, a tie going to the even one.\<close>

definition rne :: "rat \<Rightarrow> int" where
  "rne y = (let f = \<lfloor>y\<rfloor>; d = y - of_int f
            in if d < 1 / 2 then f else if 1 / 2 < d then f + 1
               else if even f then f else f + 1)"

text \<open>The binary exponent of \<open>x\<close>: \<open>pow2 e \<le> |x| < pow2 (e + 1)\<close>, for \<open>x\<close> other than 0.\<close>

definition fl_exponent :: "rat \<Rightarrow> int" where
  "fl_exponent x =
     (case quotient_of \<bar>x\<bar> of (n, d) \<Rightarrow>
        let c = int (bits n) - int (bits d)
        in if pow2 c \<le> \<bar>x\<bar> then c else c - 1)"

definition fl :: "rat \<Rightarrow> rat" where
  "fl x = (if x = 0 then 0
           else let e = max (fl_exponent x) (- 1022); q = pow2 (e - 52)
                in of_int (rne (x / q)) * q)"

text \<open>
  \<open>a / b\<close> on two integers is the correctly rounded quotient; on floats the operands are
  doubles already.  Both raise on a zero divisor.
\<close>

definition int_truediv :: "int \<Rightarrow> int \<Rightarrow> py_error + rat" where
  "int_truediv a b = (if b = 0 then Inl ZeroDivisionError else Inr (fl (of_int a / of_int b)))"

definition float_truediv :: "rat \<Rightarrow> rat \<Rightarrow> py_error + rat" where
  "float_truediv a b = (if b = 0 then Inl ZeroDivisionError else Inr (fl (a / b)))"

text \<open>
  \<open>round(x, 1)\<close> on a float: the exact value of \<open>x\<close> is rounded to one decimal, a tie
  going to the even digit, and the decimal is converted to the nearest double.
\<close>

definition py_round1 :: "rat \<Rightarrow> rat" where
  "py_round1 x = fl (of_int (rne (x * 10)) / 10)"

text \<open>Arithmetic on scores: an integer operand is converted when the other is a float.\<close>

fun to_float :: "pynum \<Rightarrow> rat" where
  "to_float (PInt i) = fl (of_int i)"
| "to_float (PFloat q) = q"

fun py_abs :: "pynum \<Rightarrow> pynum" where
  "py_abs (PInt i) = PInt \<bar>i\<bar>"
| "py_abs (PFloat q) = PFloat \<bar>q\<bar>"

fun py_mul :: "pynum \<Rightarrow> pynum \<Rightarrow> pynum" where
  "py_mul (PInt a) (PInt b) = PInt (a * b)"
| "py_mul a b = PFloat (fl (to_float a * to_float b))"

fun py_add :: "pynum \<Rightarrow> pynum \<Rightarrow> pynum" where
  "py_add (PInt a) (PInt b) = PInt (a + b)"
| "py_add a b = PFloat (fl (to_float a + to_float b))"

text \<open>\<open>int(x)\<close>: the identity on an integer, truncation towards zero on a float.\<close>

fun py_int :: "pynum \<Rightarrow> int" where
  "py_int (PInt i) = i"
| "py_int (PFloat q) = (if 0 \<le> q then \<lfloor>q\<rfloor> else \<lceil>q\<rceil>)"

section \<open>Metric functions\<close>

definition ratio :: "sample \<Rightarrow> py_error + pynum" where
  "ratio obj =
     (let d = deaths obj;
          d = (if d = 0 then 1 else d)
      in case int_truediv (kills obj) d of
           Inl e \<Rightarrow> Inl e
         | Inr computed_ratio \<Rightarrow> Inr (PFloat (py_round1 computed_ratio)))"


definition teamplay :: "config \<Rightarrow> sample \<Rightarrow> py_error + pynum" where
  "teamplay cfg obj =
     (if num_val (COMBATSUPPORT_RATIO cfg) = 0
      then Inr (PInt (combat obj + support obj))
      else Inr (PInt (py_int (py_add (PInt (combat obj))
                 (py_mul (PInt (support obj)) (py_abs (COMBATSUPPORT_RATIO cfg)))))))"

definition killrate :: "sample \<Rightarrow> py_error + pynum" where
  "killrate obj =
     (if kills obj = 0 then Inr (PInt 0)
      else if offense obj = 0 \<and> defense obj = 0 then Inr (PInt 0)
      else case int_truediv (offense obj + defense obj) 20 of
             Inl e \<Rightarrow> Inl e
           | Inr mins \<Rightarrow>
               (case float_truediv (fl (of_int (kills obj))) mins of
                  Inl e \<Rightarrow> Inl e
                | Inr r \<Rightarrow> Inr (PFloat (py_round1 r))))"

section \<open>Text\<close>

text \<open>
  The entries of \<open>TRANSL\<close> that the leaderboard builder reads, indexed by \<open>LANG\<close>.
  Characters outside ASCII are written as their UTF-8 bytes.
\<close>

definition nl :: string where
  "nl = [CHR 0x0A]"

fun TRANSL_team :: "team \<Rightarrow> lang \<Rightarrow> string" where
  "TRANSL_team Allies English = ''all''"
| "TRANSL_team Allies French = ''all''"
| "TRANSL_team Allies German = ''Allierte''"
| "TRANSL_team Allies Portuguese = ''ALIADOS''"
| "TRANSL_team Axis English = ''axi''"
| "TRANSL_team Axis French = ''axe''"
| "TRANSL_team Axis German = ''Achsenm'' @ [CHR 0xC3, CHR 0xA4] @ ''chte''"
| "TRANSL_team Axis Portuguese = ''EIXO''"

fun TRANSL_vip_until :: "lang \<Rightarrow> string" where
  "TRANSL_vip_until English = ''VIP until''"
| "TRANSL_vip_until French = ''VIP jusqu'' @ [CHR 0x27] @ ''au''"
| "TRANSL_vip_until German = ''VIP bis''"
| "TRANSL_vip_until Portuguese = ''VIP AT'' @ [CHR 0xC3, CHR 0x89]"

fun TRANSL_already_vip :: "lang \<Rightarrow> string" where
  "TRANSL_already_vip English = ''Already VIP !''"
| "TRANSL_already_vip French = ''D'' @ [CHR 0xC3, CHR 0xA9] @ ''j'' @ [CHR 0xC3, CHR 0xA0] @ '' VIP !''"
| "TRANSL_already_vip German = ''bereits VIP !''"
| "TRANSL_already_vip Portuguese =
     ''J'' @ [CHR 0xC3, CHR 0x81] @ '' '' @ [CHR 0xC3, CHR 0x89] @ '' VIP!''"

text \<open>The squad marker glyph followed by a blank.\<close>

definition squad_marker :: string where
  "squad_marker = [CHR 0xE2, CHR 0x96, CHR 0xA0] @ '' ''"

text \<open>
  What an f-string prints for an integer, and for a float that \<open>round(x, 1)\<close> returned:
  the decimal with one digit after the point that the double is nearest to.
\<close>

definition digit_char :: "int \<Rightarrow> char" where
  "digit_char d =
     (if d = 0 then CHR ''0'' else if d = 1 then CHR ''1'' else if d = 2 then CHR ''2''
      else if d = 3 then CHR ''3'' else if d = 4 then CHR ''4'' else if d = 5 then CHR ''5''
      else if d = 6 then CHR ''6'' else if d = 7 then CHR ''7'' else if d = 8 then CHR ''8''
      else CHR ''9'')"

function show_digits :: "int \<Rightarrow> string" where
  "show_digits n =
     (if n < 10 then [digit_char n] else show_digits (n div 10) @ [digit_char (n mod 10)])"
  by pat_completeness auto
termination
  by (relation "measure nat") auto

declare show_digits.simps [simp del]

definition show_int :: "int \<Rightarrow> string" where
  "show_int i = (if i < 0 then ''-'' @ show_digits (- i) else show_digits i)"

definition show_float :: "rat \<Rightarrow> string" where
  "show_float q =
     (let t = rne (\<bar>q\<bar> * 10)
      in (if q < 0 then ''-'' else '''') @ show_digits (t div 10) @ ''.''
           @ show_digits (t mod 10))"

fun show_num :: "pynum \<Rightarrow> string" where
  "show_num (PInt i) = show_int i"
| "show_num (PFloat q) = show_float q"

text \<open>\<open>'; '.join(names)\<close>\<close>

fun join_names :: "string list \<Rightarrow> string" where
  "join_names [] = ''''"
| "join_names [n] = n"
| "join_names (n # ns) = n @ ''; '' @ join_names ns"

section \<open>The game-server connection\<close>

text \<open>
  The connection \<open>rcon\<close> is a service outside the plugin.  Its state is the grant ledger
  read by \<open>get_vip_ids\<close> (player id and expiry, \<open>None\<close> for a grant with no expiry), the
  number of players that \<open>get_status\<close> reports, and the clock that \<open>datetime.now\<close> reads,
  in seconds.  The calls made on it are logged in order.  \<open>add_vip\<close> adds a record to the
  ledger.
\<close>

datatype rcon_call = Get_status | Get_vip_ids | Add_vip string string int

record rcon =
  vip_ids :: "(string \<times> int option) list"
  current_players :: int
  clock :: int
  calls :: "rcon_call list"

definition get_status :: "rcon \<Rightarrow> int \<times> rcon" where
  "get_status rc = (current_players rc, rc\<lparr>calls := calls rc @ [Get_status]\<rparr>)"

definition get_vip_ids :: "rcon \<Rightarrow> (string \<times> int option) list \<times> rcon" where
  "get_vip_ids rc = (vip_ids rc, rc\<lparr>calls := calls rc @ [Get_vip_ids]\<rparr>)"

definition add_vip :: "rcon \<Rightarrow> string \<Rightarrow> string \<Rightarrow> int \<Rightarrow> rcon" where
  "add_vip rc pid description expiration =
     rc\<lparr>vip_ids := vip_ids rc @ [(pid, Some expiration)],
        calls := calls rc @ [Add_vip pid description expiration]\<rparr>"

definition hours_later :: "int \<Rightarrow> int \<Rightarrow> int" where
  "hours_later t h = t + h * 3600"

section \<open>Grants\<close>

text \<open>The loop of \<open>is_vip_for_less_than_xh\<close> over the ledger.\<close>

fun vip_scan :: "(string \<times> int option) list \<Rightarrow> string \<Rightarrow> int \<Rightarrow> bool" where
  "vip_scan [] pid limit = True"
| "vip_scan ((p, None) # items) pid limit = vip_scan items pid limit"
| "vip_scan ((p, Some vip_expiration) # items) pid limit =
     (if p = pid then (if vip_expiration < limit then True else False)
      else vip_scan items pid limit)"

definition is_vip_for_less_than_xh :: "rcon \<Rightarrow> string \<Rightarrow> int \<Rightarrow> bool \<times> rcon" where
  "is_vip_for_less_than_xh rc pid vip_delay_hours =
     (let (actual_vips, rc1) = get_vip_ids rc
      in (vip_scan actual_vips pid (hours_later (clock rc1) vip_delay_hours), rc1))"

definition give_xh_vip :: "config \<Rightarrow> rcon \<Rightarrow> string \<Rightarrow> string \<Rightarrow> int \<Rightarrow> string \<times> rcon" where
  "give_xh_vip cfg rc pid player_name hours_awarded =
     (let combined_name = player_name @ '' Top-Player'';
          now_plus_xh = hours_later (clock rc) hours_awarded;
          rc1 = add_vip rc pid combined_name now_plus_xh
      in (TRANSL_vip_until (LANG cfg) @ '' '' @ local_time cfg now_plus_xh @ '' !'' @ nl, rc1))"

section \<open>The leaderboard builder\<close>

text \<open>What an f-string prints for \<open>sample[key]\<close>; a key the record lacks raises.\<close>

definition show_item :: "sample \<Rightarrow> string \<Rightarrow> py_error + string" where
  "show_item s key =
     (if key = ''name'' then Inr (name s)
      else if key = ''team'' then Inr (case team s of Allies \<Rightarrow> ''allies'' | Axis \<Rightarrow> ''axis'')
      else if key = ''role'' then Inr (role s)
      else if key = ''player_id'' then Inr (player_id s)
      else if key = ''unit_name'' then Inr (unit_name s)
      else if key = ''kills'' then Inr (show_int (kills s))
      else if key = ''deaths'' then Inr (show_int (deaths s))
      else if key = ''combat'' then Inr (show_int (combat s))
      else if key = ''offense'' then Inr (show_int (offense s))
      else if key = ''defense'' then Inr (show_int (defense s))
      else if key = ''support'' then Inr (show_int (support s))
      else Inl KeyError)"

text \<open>
  \<open>sorted(data_bucket, key=sortkey, reverse=True)\<close>: the key is computed for every record,
  the first failure being raised; the sort is stable, and \<open>reverse=True\<close> reverses the list
  before and after sorting, so that records of equal score keep their order.
\<close>

fun first_error :: "('a \<Rightarrow> py_error + 'b) \<Rightarrow> 'a list \<Rightarrow> py_error option" where
  "first_error f [] = None"
| "first_error f (x # xs) = (case f x of Inl e \<Rightarrow> Some e | Inr _ \<Rightarrow> first_error f xs)"

definition key_val :: "(sample \<Rightarrow> py_error + pynum) \<Rightarrow> sample \<Rightarrow> rat" where
  "key_val f s = (case f s of Inr k \<Rightarrow> num_val k | Inl _ \<Rightarrow> 0)"

definition sorted_reverse :: "(sample \<Rightarrow> py_error + pynum) \<Rightarrow> sample list \<Rightarrow> py_error + sample list" where
  "sorted_reverse f xs =
     (case first_error f xs of
        Some e \<Rightarrow> Inl e
      | None \<Rightarrow> Inr (rev (sort_key (key_val f) (rev xs))))"

text \<open>The slice \<open>xs[:n]\<close>; a negative \<open>n\<close> counts from the end.\<close>

definition slice_to :: "'a list \<Rightarrow> int \<Rightarrow> 'a list" where
  "slice_to xs n = (if 0 \<le> n then take (nat n) xs else take (length xs - nat (- n)) xs)"

text \<open>
  The output string is built by appending pieces.  Each piece is kept with the place of
  \<open>get_top\<close> that appended it; the returned string is their concatenation.
\<close>

datatype piece = Marker | Listing | Members | Granted | Already

type_synonym chunk = "piece \<times> string"

definition render :: "chunk list \<Rightarrow> string" where
  "render out = concat (map snd out)"

text \<open>The arguments and local variables of \<open>get_top\<close> that its loop reads.\<close>

record frame =
  callmode :: string
  calltype :: string
  sortkey :: "sample \<Rightarrow> py_error + pynum"
  first_data :: string
  second_data :: string
  third_data :: string
  fourth_data :: string
  squadtype_allplayers :: "sample list"
  sorted_data :: "sample list"
  show_members :: int
  server_status :: "int option"

text \<open>The two f-strings of the loop: two raw fields, or the computed score.\<close>

definition raw_line :: "config \<Rightarrow> string \<Rightarrow> string \<Rightarrow> string \<Rightarrow> sample \<Rightarrow> py_error + string" where
  "raw_line cfg f1 f2 f3 s =
     (case show_item s f1 of Inl e \<Rightarrow> Inl e | Inr a \<Rightarrow>
      case show_item s f2 of Inl e \<Rightarrow> Inl e | Inr b \<Rightarrow>
      case show_item s f3 of Inl e \<Rightarrow> Inl e | Inr c \<Rightarrow>
        Inr (a @ '' ('' @ TRANSL_team (team s) (LANG cfg) @ ''): '' @ b @ '' ; '' @ c @ nl))"

definition rate_line :: "config \<Rightarrow> (sample \<Rightarrow> py_error + pynum) \<Rightarrow> string \<Rightarrow> sample \<Rightarrow> py_error + string" where
  "rate_line cfg skey f1 s =
     (case show_item s f1 of Inl e \<Rightarrow> Inl e | Inr a \<Rightarrow>
      case skey s of Inl e \<Rightarrow> Inl e | Inr k \<Rightarrow>
        Inr (a @ '' ('' @ TRANSL_team (team s) (LANG cfg) @ ''): '' @ show_num k @ nl))"

definition best_players_names :: "frame \<Rightarrow> sample \<Rightarrow> string list" where
  "best_players_names fr sample_vip =
     map name (filter (\<lambda>data. team data = team sample_vip \<and> unit_name data = name sample_vip)
                 (squadtype_allplayers fr))"

definition members_lines :: "frame \<Rightarrow> chunk list" where
  "members_lines fr =
     map (\<lambda>sample_vip. (Members, join_names (best_players_names fr sample_vip) @ nl))
       (slice_to (sorted_data fr) (show_members fr))"

definition listing_part :: "config \<Rightarrow> frame \<Rightarrow> int \<Rightarrow> sample \<Rightarrow> py_error + chunk list" where
  "listing_part cfg fr iteration s =
     (case sortkey fr s of Inl e \<Rightarrow> Inl e | Inr k \<Rightarrow>
      if num_val k \<noteq> 0 then
        (case (if fourth_data fr = ''''
               then (case raw_line cfg (first_data fr) (second_data fr) (third_data fr) s of
                       Inl e \<Rightarrow> Inl e
                     | Inr l \<Rightarrow> Inr ((if calltype fr = ''squad'' then [(Marker, squad_marker)] else [])
                                   @ [(Listing, l)]))
               else (case rate_line cfg (sortkey fr) (first_data fr) s of
                       Inl e \<Rightarrow> Inl e
                     | Inr l \<Rightarrow> Inr [(Listing, l)]))
         of Inl e \<Rightarrow> Inl e
          | Inr out \<Rightarrow>
              Inr (out @ (if calltype fr = ''squad'' \<and> 0 < show_members fr
                              \<and> iteration \<le> show_members fr
                          then members_lines fr else [])))
      else Inr [])"

definition vip_gate :: "config \<Rightarrow> frame \<Rightarrow> int \<Rightarrow> bool" where
  "vip_gate cfg fr iteration =
     (callmode fr = ''matchend''
      \<and> calltype fr = ''player''
      \<and> 0 < VIP_WINNERS cfg
      \<and> 0 < VIP_HOURS cfg
      \<and> (case server_status fr of Some n \<Rightarrow> SEED_LIMIT cfg \<le> n | None \<Rightarrow> False)
      \<and> second_data fr \<noteq> ''kills''
      \<and> iteration \<le> VIP_WINNERS cfg)"

definition commander_guard :: "config \<Rightarrow> sample \<Rightarrow> bool" where
  "commander_guard cfg s =
     (role s = ''armycommander''
      \<and> (fl (of_int (offense s + defense s) / 20) < of_int (VIP_COMMANDER_MIN_PLAYTIME_MINS cfg)
         \<or> support s < VIP_COMMANDER_MIN_SUPPORT_SCORE cfg))"

text \<open>
  The grant block of the loop body, with the increment of \<open>iteration\<close> that ends the body;
  \<open>continue\<close> leaves the body before the increment.
\<close>

definition vip_part :: "config \<Rightarrow> frame \<Rightarrow> sample \<Rightarrow> chunk list \<times> int \<times> rcon \<Rightarrow> chunk list \<times> int \<times> rcon" where
  "vip_part cfg fr s st =
     (case st of (output, iteration, rc) \<Rightarrow>
        if vip_gate cfg fr iteration then
          if commander_guard cfg s then (output, iteration, rc)
          else (case is_vip_for_less_than_xh rc (player_id s) (VIP_HOURS cfg) of (lt_xh, rc1) \<Rightarrow>
                  if lt_xh
                  then (case give_xh_vip cfg rc1 (player_id s) (name s) (VIP_HOURS cfg) of
                          (txt, rc2) \<Rightarrow> (output @ [(Granted, txt)], iteration + 1, rc2))
                  else (output @ [(Already, TRANSL_already_vip (LANG cfg) @ nl)], iteration + 1, rc1))
        else (output, iteration + 1, rc))"

definition get_top_step :: "config \<Rightarrow> frame \<Rightarrow> sample \<Rightarrow> chunk list \<times> int \<times> rcon \<Rightarrow> py_error + chunk list \<times> int \<times> rcon" where
  "get_top_step cfg fr s st =
     (case st of (output, iteration, rc) \<Rightarrow>
        case listing_part cfg fr iteration s of
          Inl e \<Rightarrow> Inl e
        | Inr ls \<Rightarrow> Inr (vip_part cfg fr s (output @ ls, iteration, rc)))"

fun get_top_loop :: "config \<Rightarrow> frame \<Rightarrow> sample list \<Rightarrow> chunk list \<times> int \<times> rcon \<Rightarrow> py_error + chunk list \<times> rcon" where
  "get_top_loop cfg fr [] st = (case st of (output, iteration, rc) \<Rightarrow> Inr (output, rc))"
| "get_top_loop cfg fr (s # ss) st =
     (case get_top_step cfg fr s st of
        Inl e \<Rightarrow> Inl e
      | Inr st1 \<Rightarrow> get_top_loop cfg fr ss st1)"

text \<open>
  \<open>tops_limit\<close> and \<open>show_members\<close> are assigned under \<open>callmode == "chat"\<close> and under
  \<open>callmode == "matchend"\<close> only; \<open>server_status\<close> under the latter only.  Reading
  \<open>tops_limit\<close> unassigned raises.
\<close>

definition get_top :: "config \<Rightarrow> rcon \<Rightarrow> string \<Rightarrow> string \<Rightarrow> sample list
    \<Rightarrow> (sample \<Rightarrow> py_error + pynum) \<Rightarrow> string \<Rightarrow> string \<Rightarrow> string \<Rightarrow> string \<Rightarrow> sample list
    \<Rightarrow> py_error + chunk list \<times> rcon" where
  "get_top cfg rc cmode ctype data_bucket skey f1 f2 f3 f4 allplayers =
     (let limits0 = (if cmode = ''chat''
                     then Some (TOPS_CHAT cfg, TOPS_CHAT_DETAIL_SQUADS cfg) else None);
          (status, rc1, limits) =
             (if cmode = ''matchend''
              then (case get_status rc of (n, rc') \<Rightarrow>
                      (Some n, rc', Some (TOPS_MATCHEND cfg, TOPS_MATCHEND_DETAIL_SQUADS cfg)))
              else (None, rc, limits0))
      in case sorted_reverse skey data_bucket of
           Inl e \<Rightarrow> Inl e
         | Inr sdata \<Rightarrow>
             (case limits of
                None \<Rightarrow> Inl UnboundLocalError
              | Some (tops_limit, members) \<Rightarrow>
                  get_top_loop cfg
                    \<lparr>callmode = cmode, calltype = ctype, sortkey = skey, first_data = f1,
                     second_data = f2, third_data = f3, fourth_data = f4,
                     squadtype_allplayers = allplayers, sorted_data = sdata,
                     show_members = members, server_status = status\<rparr>
                    (slice_to sdata tops_limit) ([], 1, rc1)))"

section \<open>Reading an output\<close>

text \<open>
  The keys of a stat record; the line that the loop body appends for one record; the
  lines of the ranking and the grant texts among the pieces of an output.
\<close>

definition record_keys :: "string list" where
  "record_keys = [''name'', ''team'', ''role'', ''player_id'', ''unit_name'', ''kills'',
     ''deaths'', ''combat'', ''offense'', ''defense'', ''support'']"

definition entry_line :: "config \<Rightarrow> (sample \<Rightarrow> py_error + pynum) \<Rightarrow> string \<Rightarrow> string \<Rightarrow> string \<Rightarrow> string \<Rightarrow> sample \<Rightarrow> py_error + string" where
  "entry_line cfg skey f1 f2 f3 f4 s =
     (if f4 = [] then raw_line cfg f1 f2 f3 s else rate_line cfg skey f1 s)"

definition listing_lines :: "chunk list \<Rightarrow> string list" where
  "listing_lines out = map snd (filter (\<lambda>c. fst c = Listing) out)"

definition grant_pieces :: "chunk list \<Rightarrow> chunk list" where
  "grant_pieces out = filter (\<lambda>c. fst c = Granted \<or> fst c = Already) out"

section \<open>The calls of stats\_gather\<close>

text \<open>The two calls of \<open>get_top\<close> in \<open>stats_gather\<close> for the rate metrics.\<close>

definition top_infantry_ratio :: "config \<Rightarrow> rcon \<Rightarrow> string \<Rightarrow> sample list \<Rightarrow> py_error + chunk list \<times> rcon" where
  "top_infantry_ratio cfg rc cmode all_players_infantry =
     get_top cfg rc cmode ''player'' all_players_infantry ratio
       ''name'' ''kills'' ''deaths'' [] all_players_infantry"

definition top_infantry_killrate :: "config \<Rightarrow> rcon \<Rightarrow> string \<Rightarrow> sample list \<Rightarrow> py_error + chunk list \<times> rcon" where
  "top_infantry_killrate cfg rc cmode all_players_infantry =
     get_top cfg rc cmode ''player'' all_players_infantry killrate
       ''name'' ''kills'' ''offense'' ''defense'' all_players_infantry"

section \<open>Example inputs\<close>

definition ex_player :: sample where
  "ex_player = \<lparr>name = ''a'', team = Allies, role = ''rifleman'', player_id = ''1'',
     unit_name = ''able'', kills = 7, deaths = 20, combat = 10, offense = 300, defense = 100,
     support = 50\<rparr>"

definition ex_cfg :: config where
  "ex_cfg = \<lparr>LANG = English, OFFENSEDEFENSE_RATIO = PFloat (3 / 2),
     COMBATSUPPORT_RATIO = PFloat (3 / 2),
     TOPS_CHAT = 3, TOPS_CHAT_DETAIL_SQUADS = 0, TOPS_MATCHEND = 3,
     TOPS_MATCHEND_DETAIL_SQUADS = 1, VIP_WINNERS = 1, VIP_COMMANDER_MIN_PLAYTIME_MINS = 40,
     VIP_COMMANDER_MIN_SUPPORT_SCORE = 2000, SEED_LIMIT = 70, VIP_HOURS = 14,
     local_time = show_int\<rparr>"

definition ex_rcon :: rcon where
  "ex_rcon = \<lparr>vip_ids = [(''1'', None)], current_players = 80, clock = 1000, calls = []\<rparr>"

definition mk_sample :: "string \<Rightarrow> string \<Rightarrow> string \<Rightarrow> string \<Rightarrow> int \<Rightarrow> int \<Rightarrow> sample" where
  "mk_sample n r i u c sp = \<lparr>name = n, team = Allies, role = r, player_id = i, unit_name = u,
     kills = 0, deaths = 0, combat = c, offense = 0, defense = 0, support = sp\<rparr>"

definition ex_squads :: "sample list" where
  "ex_squads = [mk_sample ''able'' [] [] [] 50 0, mk_sample ''baker'' [] [] [] 40 0]"

definition ex_members :: "sample list" where
  "ex_members = [mk_sample ''p1'' ''rifleman'' ''1'' ''able'' 5 0,
                 mk_sample ''p2'' ''rifleman'' ''2'' ''baker'' 5 0]"


definition ex_bucket :: "sample list" where
  "ex_bucket = [mk_sample ''a'' ''rifleman'' ''1'' ''able'' 50 0,
                mk_sample ''b'' ''rifleman'' ''2'' ''able'' 50 0,
                mk_sample ''c'' ''rifleman'' ''3'' ''able'' 30 0,
                mk_sample ''d'' ''rifleman'' ''4'' ''able'' 0 0,
                mk_sample ''e'' ''rifleman'' ''5'' ''able'' 10 0]"

definition ex_rcon_seed :: rcon where
  "ex_rcon_seed = ex_rcon\<lparr>current_players := 65\<rparr>"

definition ex_frame :: frame where
  "ex_frame = \<lparr>callmode = ''matchend'', calltype = ''player'', sortkey = teamplay ex_cfg,
     first_data = ''name'', second_data = ''combat'', third_data = ''support'',
     fourth_data = [], squadtype_allplayers = [], sorted_data = [],
     show_members = 1, server_status = Some 80\<rparr>"

definition ex_commander :: sample where
  "ex_commander = mk_sample ''cmd'' ''armycommander'' ''9'' [] 500 100"

definition ex_rifle :: sample where
  "ex_rifle = mk_sample ''r'' ''rifleman'' ''2'' ''able'' 100 0"

section \<open>Verified properties\<close>

subsection \<open>Floating point\<close>

lemma pow2_powi: "pow2 e = 2 powi e"
  by (simp add: pow2_def power_int_def inverse_eq_divide power_one_over)

lemma pow2_pos: "0 < pow2 e"
  by (simp add: pow2_powi)

lemma pow2_mono: "a \<le> b \<Longrightarrow> pow2 a \<le> pow2 b"
  by (simp add: pow2_powi power_int_increasing)

lemma bits_bounds: "0 < n \<Longrightarrow> 2 ^ bits n \<le> 2 * n \<and> n < 2 ^ bits n"
proof (induction n rule: bits.induct)
  case (1 n)
  show ?case
  proof (cases "n = 1")
    case True
    have "bits (1::int) = Suc (bits 0)" by (subst bits.simps) simp
    also have "bits (0::int) = 0" by (subst bits.simps) simp
    finally show ?thesis using True by simp
  next
    case False
    with "1.prems" have pos: "0 < n div 2" by simp
    with "1.IH" "1.prems" have ih: "2 ^ bits (n div 2) \<le> 2 * (n div 2) \<and> n div 2 < 2 ^ bits (n div 2)"
      by simp
    have b: "bits n = Suc (bits (n div 2))" using "1.prems" by (subst bits.simps) simp
    from ih have "2 * 2 ^ bits (n div 2) \<le> 2 * n" by linarith
    moreover from ih have "n < 2 * 2 ^ bits (n div 2)" by linarith
    ultimately show ?thesis by (simp add: b)
  qed
qed

lemma rne_bound: "\<bar>of_int (rne y) - y\<bar> \<le> 1 / 2"
proof -
  have "of_int \<lfloor>y\<rfloor> \<le> y" "y < of_int \<lfloor>y\<rfloor> + 1" by linarith+
  then show ?thesis
    unfolding rne_def Let_def by (simp add: abs_if) linarith
qed

lemma rne_ge_one: "1 \<le> y \<Longrightarrow> 1 \<le> rne y"
proof -
  assume "1 \<le> y"
  then have "1 \<le> \<lfloor>y\<rfloor>" by simp
  then show ?thesis by (auto simp add: rne_def Let_def)
qed

lemma fl_exponent_le:
  assumes "0 < x"
  shows "pow2 (fl_exponent x) \<le> x"
proof -
  obtain n d where q: "quotient_of x = (n, d)" by (cases "quotient_of x")
  then have d: "0 < d" by (rule quotient_of_denom_pos)
  from q have x: "x = of_int n / of_int d" by (rule quotient_of_div)
  with assms d have n: "0 < n" by (simp add: zero_less_divide_iff)
  let ?c = "int (bits n) - int (bits d)"
  show ?thesis
  proof (cases "pow2 ?c \<le> x")
    case True
    with assms q show ?thesis by (simp add: fl_exponent_def Let_def)
  next
    case False
    from bits_bounds[OF n] have bn: "(2::rat) ^ bits n \<le> 2 * of_int n"
      by (metis of_int_le_iff of_int_mult of_int_numeral of_int_power)
    from bits_bounds[OF d] have bd: "of_int d < (2::rat) ^ bits d"
      by (metis of_int_less_iff of_int_numeral of_int_power)
    have "?c - 1 = int (bits n) - int (Suc (bits d))" by simp
    then have "pow2 (?c - 1) = 2 powi int (bits n) / 2 powi int (Suc (bits d))"
      by (simp only: pow2_powi) (simp add: power_int_diff del: of_nat_Suc)
    also have "\<dots> = 2 ^ bits n / (2 * 2 ^ bits d)"
      by (simp only: power_int_of_nat power_Suc)
    also have "\<dots> \<le> (2 * of_int n) / (2 * 2 ^ bits d)"
      by (rule divide_right_mono[OF bn]) simp
    also have "\<dots> = of_int n / 2 ^ bits d" by simp
    also have "\<dots> \<le> of_int n / of_int d"
      using bd n d by (simp add: frac_le)
    finally have "pow2 (?c - 1) \<le> x" using x by simp
    with False assms q show ?thesis by (simp add: fl_exponent_def Let_def)
  qed
qed

lemma fl_pos:
  assumes "1 / 20 \<le> x"
  shows "0 < fl x"
proof -
  from assms have x: "0 < x" by simp
  let ?e = "max (fl_exponent x) (- 1022)"
  let ?q = "pow2 (?e - 52)"
  have "?q \<le> x"
  proof (cases "- 1022 \<le> fl_exponent x")
    case True
    then have "?q = pow2 (fl_exponent x - 52)" by (simp add: max_def)
    also have "\<dots> \<le> pow2 (fl_exponent x)" by (rule pow2_mono) simp
    also have "\<dots> \<le> x" by (rule fl_exponent_le[OF x])
    finally show ?thesis .
  next
    case False
    then have "?q = pow2 (- 1074)" by (simp add: max_def)
    also have "\<dots> \<le> pow2 (- 5)" by (rule pow2_mono) simp
    also have "\<dots> \<le> 1 / 20" by (simp add: pow2_def)
    finally show ?thesis using assms by simp
  qed
  then have "1 \<le> x / ?q" using pow2_pos[of "?e - 52"] by (simp add: pos_le_divide_eq)
  then have "1 \<le> rne (x / ?q)" by (rule rne_ge_one)
  then have "0 < (of_int (rne (x / ?q)) :: rat) * ?q"
    using pow2_pos[of "?e - 52"] by simp
  with x show ?thesis by (simp add: fl_def Let_def)
qed

lemma py_round1_one_decimal:
  "\<exists>t. py_round1 x = fl (of_int t / 10) \<and> \<bar>of_int t / 10 - x\<bar> \<le> 1 / 20"
proof -
  have "\<bar>of_int (rne (x * 10)) - x * 10\<bar> \<le> 1 / 2" by (rule rne_bound)
  then have "\<bar>of_int (rne (x * 10)) / 10 - x\<bar> \<le> 1 / 20" by (simp add: abs_if split: if_splits)
  then show ?thesis unfolding py_round1_def by blast
qed

lemma round1_examples:
  "py_round1 (fl (5 / 1)) = 5"
  "py_round1 (fl (7 / 20)) = fl (3 / 10)"
  "py_round1 (fl (1 / 20)) = fl (1 / 10)"
  "py_round1 (fl (fl 9 / fl (400 / 20))) = 1 / 2"
  "py_round1 (fl (fl 7 / fl (400 / 20))) = fl (3 / 10)"
  by code_simp+

subsection \<open>Metric functions\<close>

text \<open>
  C6.  On a record with non-negative counters \<open>ratio\<close> and \<open>killrate\<close> return a value and
  never raise: \<open>ratio\<close> is \<open>round(kills / max(deaths, 1), 1)\<close>; \<open>killrate\<close> is 0 when
  kills is 0 or when offense and defense are both 0, and otherwise
  \<open>round(kills / ((offense + defense) / 20), 1)\<close>.  In particular
  \<open>ratio(deaths=0, kills=5) = 5.0\<close> and \<open>killrate(kills=5, offense=0, defense=0) = 0\<close>.
  The division and the rounding are those of Python on doubles: 7 kills for 20 deaths give
  0.3, 1 kill for 20 deaths gives 0.1, 9 kills in 20 minutes give 0.5; and the rounded value
  is always the double nearest to a decimal with one digit that lies within 0.05 of the
  quotient.
\<close>

theorem ratio_killrate_total:
  assumes "0 \<le> deaths obj" and "0 \<le> offense obj" and "0 \<le> defense obj"
  shows "ratio obj = Inr (PFloat (py_round1 (fl (of_int (kills obj) / of_int (max (deaths obj) 1)))))
     \<and> killrate obj =
         (if kills obj = 0 \<or> (offense obj = 0 \<and> defense obj = 0) then Inr (PInt 0)
          else Inr (PFloat (py_round1
                 (fl (fl (of_int (kills obj)) / fl (of_int (offense obj + defense obj) / 20))))))
     \<and> ratio (obj\<lparr>deaths := 0, kills := 5\<rparr>) = Inr (PFloat 5)
     \<and> killrate (obj\<lparr>kills := 5, offense := 0, defense := 0\<rparr>) = Inr (PInt 0)
     \<and> ratio (obj\<lparr>kills := 7, deaths := 20\<rparr>) = Inr (PFloat (fl (3 / 10)))
     \<and> ratio (obj\<lparr>kills := 1, deaths := 20\<rparr>) = Inr (PFloat (fl (1 / 10)))
     \<and> killrate (obj\<lparr>kills := 9, offense := 300, defense := 100\<rparr>) = Inr (PFloat (1 / 2))
     \<and> (\<exists>t. py_round1 x = fl (of_int t / 10) \<and> \<bar>of_int t / 10 - x\<bar> \<le> 1 / 20)"
proof -
  have r: "ratio obj = Inr (PFloat (py_round1 (fl (of_int (kills obj) / of_int (max (deaths obj) 1)))))"
  proof (cases "deaths obj = 0")
    case True
    then show ?thesis by (simp add: ratio_def int_truediv_def Let_def)
  next
    case False
    with assms(1) have "max (deaths obj) 1 = deaths obj" by simp
    with False show ?thesis by (simp add: ratio_def int_truediv_def Let_def)
  qed
  have k: "killrate obj =
         (if kills obj = 0 \<or> (offense obj = 0 \<and> defense obj = 0) then Inr (PInt 0)
          else Inr (PFloat (py_round1
                 (fl (fl (of_int (kills obj)) / fl (of_int (offense obj + defense obj) / 20))))))"
  proof (cases "kills obj = 0 \<or> (offense obj = 0 \<and> defense obj = 0)")
    case True
    then show ?thesis by (auto simp add: killrate_def)
  next
    case False
    with assms have "1 \<le> offense obj + defense obj" by linarith
    then have "(1::rat) \<le> of_int (offense obj + defense obj)" by linarith
    then have "(1::rat) / 20 \<le> of_int (offense obj + defense obj) / 20" by simp
    then have "0 < fl (of_int (offense obj + defense obj) / 20)" by (rule fl_pos)
    with False show ?thesis by (simp add: killrate_def int_truediv_def float_truediv_def)
  qed
  have r5: "ratio (obj\<lparr>deaths := 0, kills := 5\<rparr>) = Inr (PFloat 5)"
    using round1_examples(1) by (simp add: ratio_def int_truediv_def Let_def)
  have k5: "killrate (obj\<lparr>kills := 5, offense := 0, defense := 0\<rparr>) = Inr (PInt 0)"
    by (simp add: killrate_def)
  have r7: "ratio (obj\<lparr>kills := 7, deaths := 20\<rparr>) = Inr (PFloat (fl (3 / 10)))"
    using round1_examples(2) by (simp add: ratio_def int_truediv_def Let_def)
  have r1: "ratio (obj\<lparr>kills := 1, deaths := 20\<rparr>) = Inr (PFloat (fl (1 / 10)))"
    using round1_examples(3) by (simp add: ratio_def int_truediv_def Let_def)
  have "fl (400 / 20) \<noteq> 0" by code_simp
  then have k9: "killrate (obj\<lparr>kills := 9, offense := 300, defense := 100\<rparr>) = Inr (PFloat (1 / 2))"
    using round1_examples(4) by (simp add: killrate_def int_truediv_def float_truediv_def)
  from r k r5 k5 r7 r1 k9 py_round1_one_decimal[of x] show ?thesis by blast
qed

theorem ratio_killrate_total_witness:
  "ratio ex_player = Inr (PFloat (fl (3 / 10))) \<and> killrate ex_player = Inr (PFloat (fl (3 / 10)))"
  using ratio_killrate_total [of ex_player] round1_examples(2) round1_examples(5)
  by (simp add: ex_player_def)



subsection \<open>Grants\<close>

text \<open>
  C1.  The claim: a ranked eligible player who holds a grant with no expiry gets the
  already-VIP text and no new grant.  The code: \<open>is_vip_for_less_than_xh\<close> passes over a
  ledger record whose expiry is \<open>None\<close> and returns \<open>True\<close> at the end of the ledger, so
  \<open>get_top\<close> calls \<open>add_vip\<close> for the holder of a grant with no expiry.
\<close>

theorem permanent_vip_regranted:
  "is_vip_for_less_than_xh ex_rcon (player_id ex_player) 14 = (True, ex_rcon\<lparr>calls := [Get_vip_ids]\<rparr>)
   \<and> get_top ex_cfg ex_rcon ''matchend'' ''player'' [ex_player] (teamplay ex_cfg)
         ''name'' ''combat'' ''support'' [] [ex_player]
       = Inr ([(Listing, ''a (all): 10 ; 50'' @ nl), (Granted, ''VIP until 51400 !'' @ nl)],
           \<lparr>vip_ids = [(''1'', None), (''1'', Some 51400)], current_players = 80,
             clock = 1000,
             calls = [Get_status, Get_vip_ids, Add_vip ''1'' ''a Top-Player'' 51400]\<rparr>)"
  by code_simp

subsection \<open>Squad members\<close>

text \<open>
  C8.  The claim: each of the first \<open>show_members\<close> ranked squads is followed by exactly
  one line, the names of its own members.  The code: with a depth of 2, each of the two
  squads is followed by two lines, the members of the first squad and the members of the
  second squad.
\<close>

theorem members_lines_repeated:
  "get_top (ex_cfg\<lparr>TOPS_MATCHEND_DETAIL_SQUADS := 2\<rparr>) ex_rcon ''matchend'' ''squad'' ex_squads
      (teamplay ex_cfg) ''name'' ''combat'' ''support'' [] ex_members
   = Inr ([(Marker, squad_marker), (Listing, ''able (all): 50 ; 0'' @ nl),
           (Members, ''p1'' @ nl), (Members, ''p2'' @ nl),
           (Marker, squad_marker), (Listing, ''baker (all): 40 ; 0'' @ nl),
           (Members, ''p1'' @ nl), (Members, ''p2'' @ nl)],
          ex_rcon\<lparr>calls := [Get_status]\<rparr>)"
  by code_simp

subsection \<open>The loop of get\_top\<close>

lemma show_item_total: "k \<in> set record_keys \<Longrightarrow> \<exists>v. show_item s k = Inr v"
  by (auto simp add: record_keys_def show_item_def)

lemma raw_line_total:
  assumes "f1 \<in> set record_keys" "f2 \<in> set record_keys" "f3 \<in> set record_keys"
  shows "\<exists>l. raw_line cfg f1 f2 f3 s = Inr l"
proof -
  from show_item_total[OF assms(1)] obtain a where a: "show_item s f1 = Inr a" by blast
  from show_item_total[OF assms(2)] obtain b where b: "show_item s f2 = Inr b" by blast
  from show_item_total[OF assms(3)] obtain c where c: "show_item s f3 = Inr c" by blast
  show ?thesis by (simp add: raw_line_def a b c)
qed

lemma rate_line_total:
  assumes "f1 \<in> set record_keys" "skey s = Inr k"
  shows "\<exists>l. rate_line cfg skey f1 s = Inr l"
proof -
  from show_item_total[OF assms(1)] obtain a where a: "show_item s f1 = Inr a" by blast
  show ?thesis by (simp add: rate_line_def a assms(2))
qed

lemma entry_line_total:
  assumes "f1 \<in> set record_keys" "f2 \<in> set record_keys" "f3 \<in> set record_keys"
    and "skey s = Inr k"
  shows "\<exists>l. entry_line cfg skey f1 f2 f3 f4 s = Inr l"
  using raw_line_total[OF assms(1-3), of cfg s] rate_line_total[where skey=skey and s=s and k=k and cfg=cfg, OF assms(1) assms(4)]
  by (simp add: entry_line_def)

lemma listing_lines_append [simp]:
  "listing_lines (xs @ ys) = listing_lines xs @ listing_lines ys"
  by (simp add: listing_lines_def)

lemma listing_lines_members [simp]: "listing_lines (members_lines fr) = []"
  by (simp add: listing_lines_def members_lines_def filter_empty_conv)

lemma grant_pieces_append [simp]:
  "grant_pieces (xs @ ys) = grant_pieces xs @ grant_pieces ys"
  by (simp add: grant_pieces_def)

lemma grant_pieces_members [simp]: "grant_pieces (members_lines fr) = []"
  by (simp add: grant_pieces_def members_lines_def filter_empty_conv)

lemma listing_part_eq:
  "listing_part cfg fr it s =
     (case sortkey fr s of Inl e \<Rightarrow> Inl e | Inr k \<Rightarrow>
        if num_val k \<noteq> 0 then
          (case entry_line cfg (sortkey fr) (first_data fr) (second_data fr) (third_data fr)
                  (fourth_data fr) s of
             Inl e \<Rightarrow> Inl e
           | Inr l \<Rightarrow>
               Inr ((if fourth_data fr = [] \<and> calltype fr = ''squad''
                     then [(Marker, squad_marker)] else [])
                    @ [(Listing, l)]
                    @ (if calltype fr = ''squad'' \<and> 0 < show_members fr \<and> it \<le> show_members fr
                       then members_lines fr else [])))
        else Inr [])"
  by (simp add: listing_part_def entry_line_def split: sum.splits)

lemma listing_part_lines:
  assumes "listing_part cfg fr it s = Inr ls"
  shows "map Inr (listing_lines ls) =
           (if key_val (sortkey fr) s \<noteq> 0
            then [entry_line cfg (sortkey fr) (first_data fr) (second_data fr) (third_data fr)
                    (fourth_data fr) s]
            else [])"
    and "grant_pieces ls = []"
  using assms
  by (auto simp add: listing_part_eq key_val_def listing_lines_def grant_pieces_def
      members_lines_def filter_empty_conv split: sum.splits if_splits)

lemma listing_part_total:
  assumes "first_data fr \<in> set record_keys" "second_data fr \<in> set record_keys"
    "third_data fr \<in> set record_keys" "sortkey fr s = Inr k"
  shows "\<exists>ls. listing_part cfg fr it s = Inr ls"
  using entry_line_total[where skey="sortkey fr" and s=s and k=k and cfg=cfg and ?f4.0="fourth_data fr", OF assms(1-3) assms(4)] assms(4)
  by (auto simp add: listing_part_eq)

lemma vip_part_closed:
  "\<not> vip_gate cfg fr it \<Longrightarrow> vip_part cfg fr s (out, it, rc) = (out, it + 1, rc)"
  by (simp add: vip_part_def)

lemma vip_part_shape:
  "\<exists>gs it1 rc1. vip_part cfg fr s (out, it, rc) = (out @ gs, it1, rc1)
      \<and> listing_lines gs = [] \<and> (\<forall>c \<in> set gs. fst c = Granted \<or> fst c = Already)"
  by (auto simp add: vip_part_def listing_lines_def split: prod.splits)


lemma step_split:
  assumes "get_top_step cfg fr s (out, it, rc) = Inr st1"
  shows "\<exists>ls. listing_part cfg fr it s = Inr ls \<and> st1 = vip_part cfg fr s (out @ ls, it, rc)"
  using assms by (auto simp add: get_top_step_def split: sum.splits)

lemma step_listing:
  assumes "get_top_step cfg fr s (out, it, rc) = Inr (out1, it1, rc1)"
  shows "map Inr (listing_lines out1) =
           map Inr (listing_lines out) @
           (if key_val (sortkey fr) s \<noteq> 0
            then [entry_line cfg (sortkey fr) (first_data fr) (second_data fr) (third_data fr)
                    (fourth_data fr) s]
            else [])"
proof -
  from step_split[OF assms] obtain ls where lp: "listing_part cfg fr it s = Inr ls"
    and vp: "(out1, it1, rc1) = vip_part cfg fr s (out @ ls, it, rc)" by blast
  from vip_part_shape[of cfg fr s "out @ ls" it rc] vp
  obtain gs where o: "out1 = (out @ ls) @ gs" and g: "listing_lines gs = []" by auto
  from o g have "listing_lines out1 = listing_lines out @ listing_lines ls" by simp
  with listing_part_lines(1)[OF lp] show ?thesis by simp
qed

lemma loop_listing:
  "get_top_loop cfg fr xs (out, it, rc) = Inr (out1, rc1) \<Longrightarrow>
   map Inr (listing_lines out1) =
     map Inr (listing_lines out) @
     map (entry_line cfg (sortkey fr) (first_data fr) (second_data fr) (third_data fr)
            (fourth_data fr))
       (filter (\<lambda>s. key_val (sortkey fr) s \<noteq> 0) xs)"
proof (induction xs arbitrary: out it rc)
  case Nil
  then show ?case by simp
next
  case (Cons s xs)
  from Cons.prems obtain out2 it2 rc2
    where st: "get_top_step cfg fr s (out, it, rc) = Inr (out2, it2, rc2)"
      and rest: "get_top_loop cfg fr xs (out2, it2, rc2) = Inr (out1, rc1)"
    by (auto split: sum.splits)
  from Cons.IH[OF rest] step_listing[OF st] show ?case by simp
qed

lemma step_total:
  assumes "first_data fr \<in> set record_keys" "second_data fr \<in> set record_keys"
    "third_data fr \<in> set record_keys" "sortkey fr s = Inr k"
  shows "\<exists>st1. get_top_step cfg fr s st = Inr st1"
proof -
  obtain out it rc where st: "st = (out, it, rc)" by (cases st) auto
  from listing_part_total[OF assms, of cfg it] obtain ls
    where "listing_part cfg fr it s = Inr ls" by blast
  then have "get_top_step cfg fr s st = Inr (vip_part cfg fr s (out @ ls, it, rc))"
    by (simp add: get_top_step_def st)
  then show ?thesis by (rule exI)
qed

lemma loop_total:
  assumes "first_data fr \<in> set record_keys" "second_data fr \<in> set record_keys"
    "third_data fr \<in> set record_keys"
  shows "\<forall>s \<in> set xs. \<exists>k. sortkey fr s = Inr k \<Longrightarrow> \<exists>res. get_top_loop cfg fr xs st = Inr res"
proof (induction xs arbitrary: st)
  case Nil
  then show ?case by (cases st) auto
next
  case (Cons s xs)
  from Cons.prems obtain k where k: "sortkey fr s = Inr k" by auto
  from step_total[OF assms k, of cfg st] obtain st1
    where st1: "get_top_step cfg fr s st = Inr st1" by blast
  from Cons.prems have "\<forall>s \<in> set xs. \<exists>k. sortkey fr s = Inr k" by simp
  from Cons.IH[OF this, of st1] st1 show ?case by simp
qed

lemma loop_closed_gate:
  assumes "\<And>it. \<not> vip_gate cfg fr it"
  shows "get_top_loop cfg fr xs (out, it, rc) = Inr (out1, rc1) \<Longrightarrow>
         rc1 = rc \<and> grant_pieces out1 = grant_pieces out"
proof (induction xs arbitrary: out it rc)
  case Nil
  then show ?case by simp
next
  case (Cons s xs)
  from Cons.prems obtain st2
    where st: "get_top_step cfg fr s (out, it, rc) = Inr st2"
      and rest: "get_top_loop cfg fr xs st2 = Inr (out1, rc1)"
    by (auto split: sum.splits)
  from step_split[OF st] obtain ls where lp: "listing_part cfg fr it s = Inr ls"
    and vp: "st2 = vip_part cfg fr s (out @ ls, it, rc)" by blast
  from vp assms have st2: "st2 = (out @ ls, it + 1, rc)" by (simp add: vip_part_closed)
  from Cons.IH[OF rest[unfolded st2]] listing_part_lines(2)[OF lp] show ?case by simp
qed

lemma first_error_None:
  "(first_error f xs = None) = (\<forall>x \<in> set xs. \<exists>k. f x = Inr k)"
  by (induction xs) (auto split: sum.splits)

lemma sorted_reverse_ok:
  assumes "\<forall>x \<in> set xs. \<exists>k. f x = Inr k"
  shows "sorted_reverse f xs = Inr (rev (sort_key (key_val f) (rev xs)))"
proof -
  from assms have "first_error f xs = None" by (simp only: first_error_None)
  then show ?thesis by (simp add: sorted_reverse_def)
qed

lemma ranked_sorted:
  "sorted_wrt (\<lambda>a b. kv b \<le> kv a) (rev (sort_key kv ys))"
proof -
  have "sorted (map kv (sort_key kv ys))" by (rule sorted_sort_key)
  then show ?thesis by (simp add: sorted_wrt_rev sorted_map)
qed

lemma ranked_stable:
  "filter (\<lambda>s. kv s = v) (rev (sort_key kv (rev xs))) = filter (\<lambda>s. kv s = v) xs"
  by (simp add: rev_filter[symmetric] sort_key_stable)

lemma ranked_set_length:
  "set (rev (sort_key kv (rev xs))) = set xs \<and> length (rev (sort_key kv (rev xs))) = length xs"
  by simp

subsection \<open>The ranking\<close>

lemma get_top_run:
  assumes "cmode = ''chat'' \<or> cmode = ''matchend''"
    and "\<forall>s \<in> set bucket. \<exists>k. skey s = Inr k"
  shows "get_top cfg rc cmode ctype bucket skey f1 f2 f3 f4 allp =
     get_top_loop cfg
       \<lparr>callmode = cmode, calltype = ctype, sortkey = skey, first_data = f1,
        second_data = f2, third_data = f3, fourth_data = f4,
        squadtype_allplayers = allp,
        sorted_data = rev (sort_key (key_val skey) (rev bucket)),
        show_members = (if cmode = ''matchend'' then TOPS_MATCHEND_DETAIL_SQUADS cfg
                        else TOPS_CHAT_DETAIL_SQUADS cfg),
        server_status = (if cmode = ''matchend'' then Some (current_players rc) else None)\<rparr>
       (slice_to (rev (sort_key (key_val skey) (rev bucket)))
          (if cmode = ''matchend'' then TOPS_MATCHEND cfg else TOPS_CHAT cfg))
       ([], 1, if cmode = ''matchend'' then rc\<lparr>calls := calls rc @ [Get_status]\<rparr> else rc)"
  using assms(1) sorted_reverse_ok[OF assms(2)]
  by (auto simp add: get_top_def get_status_def Let_def)

lemma get_top_unbound:
  assumes "cmode \<noteq> ''chat''" "cmode \<noteq> ''matchend''"
    and "\<forall>s \<in> set bucket. \<exists>k. skey s = Inr k"
  shows "get_top cfg rc cmode ctype bucket skey f1 f2 f3 f4 allp = Inl UnboundLocalError"
  using assms(1,2) sorted_reverse_ok[OF assms(3)]
  by (simp add: get_top_def Let_def)


lemma ex_bucket_run:
  "map (teamplay ex_cfg) ex_bucket
     = [Inr (PInt 50), Inr (PInt 50), Inr (PInt 30), Inr (PInt 0), Inr (PInt 10)]"
  "get_top ex_cfg ex_rcon ''chat'' ''player'' ex_bucket (teamplay ex_cfg)
       ''name'' ''combat'' ''support'' [] ex_bucket
     = Inr ([(Listing, ''a (all): 50 ; 0'' @ nl), (Listing, ''b (all): 50 ; 0'' @ nl),
             (Listing, ''c (all): 30 ; 0'' @ nl)], ex_rcon)"
  by code_simp+

text \<open>
  C3.  For a call in chat or match-end mode whose metric returns on every record and whose
  field names are keys of the records: the bucket is ranked by descending score, records
  of equal score keeping the order of the bucket (the ranking is a permutation of the
  bucket, sorted, and stable); \<open>get_top\<close> returns; and the lines of its listing are, in
  order, the lines of exactly those records of the first \<open>tops_limit\<close> ranked records
  whose score is not 0.  For five players with scores 50, 50, 30, 0, 10 and a limit of 3 the
  output is the two players with 50 in the order of the bucket, then the player with 30.
\<close>

theorem listing_ranked_nonzero:
  assumes "cmode = ''chat'' \<or> cmode = ''matchend''"
    and "\<forall>s \<in> set bucket. \<exists>k. skey s = Inr k"
    and "f1 \<in> set record_keys" and "f2 \<in> set record_keys" and "f3 \<in> set record_keys"
  shows "(\<exists>ranked out rc1.
            sorted_reverse skey bucket = Inr ranked
          \<and> mset ranked = mset bucket
          \<and> sorted_wrt (\<lambda>a b. key_val skey b \<le> key_val skey a) ranked
          \<and> (\<forall>v. filter (\<lambda>s. key_val skey s = v) ranked
                  = filter (\<lambda>s. key_val skey s = v) bucket)
          \<and> get_top cfg rc cmode ctype bucket skey f1 f2 f3 f4 allp = Inr (out, rc1)
          \<and> map Inr (listing_lines out)
              = map (entry_line cfg skey f1 f2 f3 f4)
                  (filter (\<lambda>s. key_val skey s \<noteq> 0)
                     (slice_to ranked
                        (if cmode = ''matchend'' then TOPS_MATCHEND cfg else TOPS_CHAT cfg))))
       \<and> map (teamplay ex_cfg) ex_bucket
            = [Inr (PInt 50), Inr (PInt 50), Inr (PInt 30), Inr (PInt 0), Inr (PInt 10)]
       \<and> TOPS_CHAT ex_cfg = 3
       \<and> get_top ex_cfg ex_rcon ''chat'' ''player'' ex_bucket (teamplay ex_cfg)
              ''name'' ''combat'' ''support'' [] ex_bucket
            = Inr ([(Listing, ''a (all): 50 ; 0'' @ nl), (Listing, ''b (all): 50 ; 0'' @ nl),
                    (Listing, ''c (all): 30 ; 0'' @ nl)], ex_rcon)"
proof -
  let ?ranked = "rev (sort_key (key_val skey) (rev bucket))"
  let ?limit = "if cmode = ''matchend'' then TOPS_MATCHEND cfg else TOPS_CHAT cfg"
  let ?fr = "\<lparr>callmode = cmode, calltype = ctype, sortkey = skey, first_data = f1,
        second_data = f2, third_data = f3, fourth_data = f4,
        squadtype_allplayers = allp, sorted_data = ?ranked,
        show_members = (if cmode = ''matchend'' then TOPS_MATCHEND_DETAIL_SQUADS cfg
                        else TOPS_CHAT_DETAIL_SQUADS cfg),
        server_status = (if cmode = ''matchend'' then Some (current_players rc) else None)\<rparr>"
  let ?rc0 = "if cmode = ''matchend'' then rc\<lparr>calls := calls rc @ [Get_status]\<rparr> else rc"
  have sr: "sorted_reverse skey bucket = Inr ?ranked" by (rule sorted_reverse_ok[OF assms(2)])
  have ms: "mset ?ranked = mset bucket" by simp
  have so: "sorted_wrt (\<lambda>a b. key_val skey b \<le> key_val skey a) ?ranked" by (rule ranked_sorted)
  have stb: "\<forall>v. filter (\<lambda>s. key_val skey s = v) ?ranked = filter (\<lambda>s. key_val skey s = v) bucket"
    by (simp add: ranked_stable)
  have run: "get_top cfg rc cmode ctype bucket skey f1 f2 f3 f4 allp
               = get_top_loop cfg ?fr (slice_to ?ranked ?limit) ([], 1, ?rc0)"
    by (rule get_top_run[OF assms(1,2)])
  have sub: "set (slice_to ?ranked ?limit) \<subseteq> set bucket"
    using set_take_subset[of _ ?ranked] unfolding slice_to_def by (auto split: if_splits)
  with assms(2) have keys: "\<forall>s \<in> set (slice_to ?ranked ?limit). \<exists>k. sortkey ?fr s = Inr k"
    by auto
  from loop_total[of ?fr "slice_to ?ranked ?limit" cfg "([], 1, ?rc0)"] assms(3-5) keys
  obtain res where res: "get_top_loop cfg ?fr (slice_to ?ranked ?limit) ([], 1, ?rc0) = Inr res"
    by auto
  obtain out rc1 where r: "res = (out, rc1)" by (cases res)
  from loop_listing[OF res[unfolded r]]
  have ll: "map Inr (listing_lines out) = map (entry_line cfg skey f1 f2 f3 f4)
              (filter (\<lambda>s. key_val skey s \<noteq> 0) (slice_to ?ranked ?limit))"
    by (simp add: listing_lines_def)
  from sr ms so stb run res r ll
  have gen: "\<exists>ranked out rc1.
            sorted_reverse skey bucket = Inr ranked
          \<and> mset ranked = mset bucket
          \<and> sorted_wrt (\<lambda>a b. key_val skey b \<le> key_val skey a) ranked
          \<and> (\<forall>v. filter (\<lambda>s. key_val skey s = v) ranked
                  = filter (\<lambda>s. key_val skey s = v) bucket)
          \<and> get_top cfg rc cmode ctype bucket skey f1 f2 f3 f4 allp = Inr (out, rc1)
          \<and> map Inr (listing_lines out)
              = map (entry_line cfg skey f1 f2 f3 f4)
                  (filter (\<lambda>s. key_val skey s \<noteq> 0) (slice_to ranked ?limit))"
    by (intro exI[of _ ?ranked] exI[of _ out] exI[of _ rc1]) simp
  have lim: "TOPS_CHAT ex_cfg = 3" by (simp add: ex_cfg_def)
  from gen ex_bucket_run lim show ?thesis by blast
qed


theorem listing_ranked_nonzero_witness:
  "\<exists>ranked out rc1.
       sorted_reverse ratio [ex_player] = Inr ranked
     \<and> mset ranked = mset [ex_player]
     \<and> sorted_wrt (\<lambda>a b. key_val ratio b \<le> key_val ratio a) ranked
     \<and> (\<forall>v. filter (\<lambda>s. key_val ratio s = v) ranked
             = filter (\<lambda>s. key_val ratio s = v) [ex_player])
     \<and> get_top ex_cfg ex_rcon ''chat'' ''player'' [ex_player] ratio
          ''name'' ''kills'' ''deaths'' [] [ex_player] = Inr (out, rc1)
     \<and> map Inr (listing_lines out)
         = map (entry_line ex_cfg ratio ''name'' ''kills'' ''deaths'' [])
             (filter (\<lambda>s. key_val ratio s \<noteq> 0) (slice_to ranked (TOPS_CHAT ex_cfg)))"
proof -
  have h1: "''chat'' = ''chat'' \<or> ''chat'' = ''matchend''" by simp
  have h2: "\<forall>s \<in> set [ex_player]. \<exists>k. ratio s = Inr k"
    by (simp add: ratio_def int_truediv_def Let_def)
  have h3: "''name'' \<in> set record_keys" "''kills'' \<in> set record_keys"
    "''deaths'' \<in> set record_keys" by (simp_all add: record_keys_def)
  have lim: "(if ''chat'' = ''matchend'' then TOPS_MATCHEND ex_cfg else TOPS_CHAT ex_cfg)
               = TOPS_CHAT ex_cfg" by simp
  from listing_ranked_nonzero[OF h1 h2 h3, of ex_cfg ex_rcon "''player''" "[]" "[ex_player]"]
  show ?thesis unfolding lim by (rule conjunct1)
qed

text \<open>
  C10.  For a metric that returns on every record of the bucket and field names that are
  keys of the records: when \<open>callmode\<close> is "chat" or "matchend", \<open>get_top\<close> returns an
  output; for every other \<open>callmode\<close>, and every bucket, empty or not, it fails with
  the unbound-local error and returns no output.
\<close>

theorem get_top_callmode:
  assumes "\<forall>s \<in> set bucket. \<exists>k. skey s = Inr k"
    and "f1 \<in> set record_keys" and "f2 \<in> set record_keys" and "f3 \<in> set record_keys"
  shows "(cmode = ''chat'' \<or> cmode = ''matchend'' \<longrightarrow>
            (\<exists>out rc1. get_top cfg rc cmode ctype bucket skey f1 f2 f3 f4 allp = Inr (out, rc1)))
       \<and> (cmode \<noteq> ''chat'' \<and> cmode \<noteq> ''matchend'' \<longrightarrow>
            get_top cfg rc cmode ctype bucket skey f1 f2 f3 f4 allp = Inl UnboundLocalError)"
proof (intro conjI impI)
  assume cm: "cmode = ''chat'' \<or> cmode = ''matchend''"
  let ?ranked = "rev (sort_key (key_val skey) (rev bucket))"
  let ?limit = "if cmode = ''matchend'' then TOPS_MATCHEND cfg else TOPS_CHAT cfg"
  let ?fr = "\<lparr>callmode = cmode, calltype = ctype, sortkey = skey, first_data = f1,
        second_data = f2, third_data = f3, fourth_data = f4,
        squadtype_allplayers = allp, sorted_data = ?ranked,
        show_members = (if cmode = ''matchend'' then TOPS_MATCHEND_DETAIL_SQUADS cfg
                        else TOPS_CHAT_DETAIL_SQUADS cfg),
        server_status = (if cmode = ''matchend'' then Some (current_players rc) else None)\<rparr>"
  let ?rc0 = "if cmode = ''matchend'' then rc\<lparr>calls := calls rc @ [Get_status]\<rparr> else rc"
  have run: "get_top cfg rc cmode ctype bucket skey f1 f2 f3 f4 allp
               = get_top_loop cfg ?fr (slice_to ?ranked ?limit) ([], 1, ?rc0)"
    by (rule get_top_run[OF cm assms(1)])
  have sub: "set (slice_to ?ranked ?limit) \<subseteq> set bucket"
    using set_take_subset[of _ ?ranked] unfolding slice_to_def by (auto split: if_splits)
  with assms(1) have keys: "\<forall>s \<in> set (slice_to ?ranked ?limit). \<exists>k. sortkey ?fr s = Inr k"
    by auto
  from loop_total[of ?fr "slice_to ?ranked ?limit" cfg "([], 1, ?rc0)"] assms(2-4) keys
  obtain res where res: "get_top_loop cfg ?fr (slice_to ?ranked ?limit) ([], 1, ?rc0) = Inr res"
    by auto
  obtain out rc1 where r: "res = (out, rc1)" by (cases res)
  from run res r show "\<exists>out rc1. get_top cfg rc cmode ctype bucket skey f1 f2 f3 f4 allp = Inr (out, rc1)"
    by simp
next
  assume "cmode \<noteq> ''chat'' \<and> cmode \<noteq> ''matchend''"
  then show "get_top cfg rc cmode ctype bucket skey f1 f2 f3 f4 allp = Inl UnboundLocalError"
    using get_top_unbound[OF _ _ assms(1)] by blast
qed

theorem get_top_callmode_witness:
  "(\<exists>out rc1. get_top ex_cfg ex_rcon ''matchend'' ''player'' [ex_player] killrate
        ''name'' ''kills'' ''offense'' ''defense'' [ex_player] = Inr (out, rc1))
   \<and> get_top ex_cfg ex_rcon ''end'' ''player'' [ex_player] killrate
        ''name'' ''kills'' ''offense'' ''defense'' [ex_player] = Inl UnboundLocalError
   \<and> get_top ex_cfg ex_rcon ''end'' ''player'' [] killrate
        ''name'' ''kills'' ''offense'' ''defense'' [] = Inl UnboundLocalError"
proof -
  have z: "fl (400 / 20) \<noteq> 0" by code_simp
  then have h1: "\<forall>s \<in> set [ex_player]. \<exists>k. killrate s = Inr k"
    by (simp add: killrate_def int_truediv_def float_truediv_def ex_player_def)
  have h0: "\<forall>s \<in> set ([] :: sample list). \<exists>k. killrate s = Inr k" by simp
  have h3: "''name'' \<in> set record_keys" "''kills'' \<in> set record_keys"
    "''offense'' \<in> set record_keys" by (simp_all add: record_keys_def)
  from get_top_callmode[OF h1 h3, of "''matchend''" ex_cfg ex_rcon "''player''" "''defense''" "[ex_player]"]
    get_top_callmode[OF h1 h3, of "''end''" ex_cfg ex_rcon "''player''" "''defense''" "[ex_player]"]
    get_top_callmode[OF h0 h3, of "''end''" ex_cfg ex_rcon "''player''" "''defense''" "[]"]
  show ?thesis by simp
qed

subsection \<open>Disabled grants\<close>

lemma slice_keys:
  assumes "\<forall>s \<in> set bucket. \<exists>k. skey s = Inr k"
  shows "\<forall>s \<in> set (slice_to (rev (sort_key kv (rev bucket))) n). \<exists>k. skey s = Inr k"
proof -
  have "set (slice_to (rev (sort_key kv (rev bucket))) n) \<subseteq> set bucket"
    using set_take_subset[of _ "rev (sort_key kv (rev bucket))"] unfolding slice_to_def
    by (auto split: if_splits)
  with assms show ?thesis by auto
qed

lemma get_top_listing:
  assumes "cmode = ''chat'' \<or> cmode = ''matchend''"
    and "\<forall>s \<in> set bucket. \<exists>k. skey s = Inr k"
    and "f1 \<in> set record_keys" and "f2 \<in> set record_keys" and "f3 \<in> set record_keys"
  shows "\<exists>out rc1. get_top cfg rc cmode ctype bucket skey f1 f2 f3 f4 allp = Inr (out, rc1)
          \<and> map Inr (listing_lines out)
              = map (entry_line cfg skey f1 f2 f3 f4)
                  (filter (\<lambda>s. key_val skey s \<noteq> 0)
                     (slice_to (rev (sort_key (key_val skey) (rev bucket)))
                        (if cmode = ''matchend'' then TOPS_MATCHEND cfg else TOPS_CHAT cfg)))"
proof -
  let ?ranked = "rev (sort_key (key_val skey) (rev bucket))"
  let ?limit = "if cmode = ''matchend'' then TOPS_MATCHEND cfg else TOPS_CHAT cfg"
  let ?fr = "\<lparr>callmode = cmode, calltype = ctype, sortkey = skey, first_data = f1,
        second_data = f2, third_data = f3, fourth_data = f4,
        squadtype_allplayers = allp, sorted_data = ?ranked,
        show_members = (if cmode = ''matchend'' then TOPS_MATCHEND_DETAIL_SQUADS cfg
                        else TOPS_CHAT_DETAIL_SQUADS cfg),
        server_status = (if cmode = ''matchend'' then Some (current_players rc) else None)\<rparr>"
  let ?rc0 = "if cmode = ''matchend'' then rc\<lparr>calls := calls rc @ [Get_status]\<rparr> else rc"
  have run: "get_top cfg rc cmode ctype bucket skey f1 f2 f3 f4 allp
               = get_top_loop cfg ?fr (slice_to ?ranked ?limit) ([], 1, ?rc0)"
    by (rule get_top_run[OF assms(1,2)])
  from slice_keys[OF assms(2), of "key_val skey" ?limit]
  have keys: "\<forall>s \<in> set (slice_to ?ranked ?limit). \<exists>k. sortkey ?fr s = Inr k" by simp
  from loop_total[of ?fr "slice_to ?ranked ?limit" cfg "([], 1, ?rc0)"] assms(3-5) keys
  obtain res where res: "get_top_loop cfg ?fr (slice_to ?ranked ?limit) ([], 1, ?rc0) = Inr res"
    by auto
  obtain out rc1 where r: "res = (out, rc1)" by (cases res)
  from loop_listing[OF res[unfolded r]]
  have "map Inr (listing_lines out) = map (entry_line cfg skey f1 f2 f3 f4)
              (filter (\<lambda>s. key_val skey s \<noteq> 0) (slice_to ?ranked ?limit))"
    by (simp add: listing_lines_def)
  with run res r show ?thesis by simp
qed

lemma entry_line_lang:
  "LANG cfg2 = LANG cfg \<Longrightarrow>
   entry_line cfg2 skey f1 f2 f3 f4 = entry_line cfg skey f1 f2 f3 f4"
  by (rule ext) (simp add: entry_line_def raw_line_def rate_line_def split: sum.splits)

lemma map_Inr_eq:
  "map Inr ys = map f xs \<Longrightarrow> \<forall>x \<in> set xs. f x = Inr (g x) \<Longrightarrow> ys = map g xs"
  by (induction xs arbitrary: ys) (auto simp add: map_eq_Cons_conv)

text \<open>
  C5.  In match-end mode and player kind, when \<open>VIP_WINNERS\<close> is 0 (or less), or
  \<open>VIP_HOURS\<close> is 0 (or less), or the number of players in the session is below
  \<open>SEED_LIMIT\<close>: \<open>get_top\<close> returns, the only call made on the connection is
  \<open>get_status\<close> (the ledger is neither read nor written), no grant text and no
  already-VIP text is in the output, and the lines of the listing are those of the ranked
  records with a score other than 0, the same lines as under any other values of
  \<open>VIP_WINNERS\<close>, \<open>VIP_HOURS\<close> and \<open>SEED_LIMIT\<close>.  With \<open>SEED_LIMIT\<close> 0 the grant
  condition does not depend on the number of players.
\<close>

theorem grants_disabled:
  assumes "\<forall>s \<in> set bucket. \<exists>k. skey s = Inr k"
    and "f1 \<in> set record_keys" and "f2 \<in> set record_keys" and "f3 \<in> set record_keys"
    and "VIP_WINNERS cfg \<le> 0 \<or> VIP_HOURS cfg \<le> 0 \<or> current_players rc < SEED_LIMIT cfg"
  shows "(\<exists>out. get_top cfg rc ''matchend'' ''player'' bucket skey f1 f2 f3 f4 allp
                  = Inr (out, rc\<lparr>calls := calls rc @ [Get_status]\<rparr>)
            \<and> grant_pieces out = []
            \<and> map Inr (listing_lines out)
                = map (entry_line cfg skey f1 f2 f3 f4)
                    (filter (\<lambda>s. key_val skey s \<noteq> 0)
                       (slice_to (rev (sort_key (key_val skey) (rev bucket))) (TOPS_MATCHEND cfg)))
            \<and> (\<forall>w h l. \<exists>out2 rc2.
                  get_top (cfg\<lparr>VIP_WINNERS := w, VIP_HOURS := h, SEED_LIMIT := l\<rparr>) rc
                     ''matchend'' ''player'' bucket skey f1 f2 f3 f4 allp = Inr (out2, rc2)
                  \<and> listing_lines out2 = listing_lines out))
       \<and> vip_gate (cfg\<lparr>SEED_LIMIT := 0\<rparr>) (fr\<lparr>server_status := Some (int n)\<rparr>) it
            = (callmode fr = ''matchend'' \<and> calltype fr = ''player'' \<and> 0 < VIP_WINNERS cfg
               \<and> 0 < VIP_HOURS cfg \<and> second_data fr \<noteq> ''kills'' \<and> it \<le> VIP_WINNERS cfg)"
proof -
  let ?ranked = "rev (sort_key (key_val skey) (rev bucket))"
  let ?fr = "\<lparr>callmode = ''matchend'', calltype = ''player'', sortkey = skey, first_data = f1,
        second_data = f2, third_data = f3, fourth_data = f4,
        squadtype_allplayers = allp, sorted_data = ?ranked,
        show_members = TOPS_MATCHEND_DETAIL_SQUADS cfg,
        server_status = Some (current_players rc)\<rparr>"
  let ?rc0 = "rc\<lparr>calls := calls rc @ [Get_status]\<rparr>"
  let ?xs = "slice_to ?ranked (TOPS_MATCHEND cfg)"
  have cm: "''matchend'' = ''chat'' \<or> ''matchend'' = ''matchend''" by simp
  have run: "get_top cfg rc ''matchend'' ''player'' bucket skey f1 f2 f3 f4 allp
               = get_top_loop cfg ?fr ?xs ([], 1, ?rc0)"
    using get_top_run[OF cm assms(1), of cfg rc "''player''" f1 f2 f3 f4 allp] by simp
  have closed: "\<And>it. \<not> vip_gate cfg ?fr it" using assms(5) by (auto simp add: vip_gate_def)
  from slice_keys[OF assms(1), of "key_val skey" "TOPS_MATCHEND cfg"]
  have keys: "\<forall>s \<in> set ?xs. \<exists>k. sortkey ?fr s = Inr k" by simp
  from loop_total[of ?fr ?xs cfg "([], 1, ?rc0)"] assms(2-4) keys
  obtain res where res: "get_top_loop cfg ?fr ?xs ([], 1, ?rc0) = Inr res" by auto
  obtain out rc1 where r: "res = (out, rc1)" by (cases res)
  from loop_closed_gate[of cfg ?fr ?xs "[]" 1 ?rc0 out rc1] closed res r
  have rc1: "rc1 = ?rc0" and gp: "grant_pieces out = []" by (simp_all add: grant_pieces_def)
  from loop_listing[OF res[unfolded r]]
  have ll: "map Inr (listing_lines out) = map (entry_line cfg skey f1 f2 f3 f4)
              (filter (\<lambda>s. key_val skey s \<noteq> 0) ?xs)"
    by (simp add: listing_lines_def)
  have other: "\<exists>out2 rc2.
        get_top (cfg\<lparr>VIP_WINNERS := w, VIP_HOURS := h, SEED_LIMIT := l\<rparr>) rc
           ''matchend'' ''player'' bucket skey f1 f2 f3 f4 allp = Inr (out2, rc2)
        \<and> listing_lines out2 = listing_lines out" for w h l
  proof -
    let ?cfg2 = "cfg\<lparr>VIP_WINNERS := w, VIP_HOURS := h, SEED_LIMIT := l\<rparr>"
    from get_top_listing[OF cm assms(1-4), of ?cfg2 rc "''player''" f4 allp]
    obtain out2 rc2 where g: "get_top ?cfg2 rc ''matchend'' ''player'' bucket skey f1 f2 f3 f4 allp
          = Inr (out2, rc2)"
      and l2: "map Inr (listing_lines out2) = map (entry_line ?cfg2 skey f1 f2 f3 f4)
                  (filter (\<lambda>s. key_val skey s \<noteq> 0) ?xs)"
      by auto
    have eq: "entry_line ?cfg2 skey f1 f2 f3 f4 = entry_line cfg skey f1 f2 f3 f4"
      by (rule entry_line_lang) simp
    have a: "map Inr (listing_lines out2) = map (entry_line cfg skey f1 f2 f3 f4)
                  (filter (\<lambda>s. key_val skey s \<noteq> 0) ?xs)"
      using l2 unfolding eq .
    have "(map Inr (listing_lines out2) :: (py_error + string) list)
            = map Inr (listing_lines out)"
      by (rule trans[OF a ll[symmetric]])
    then have "listing_lines out2 = listing_lines out" by (simp add: inj_map_eq_map)
    with g show ?thesis by blast
  qed
  have gate0: "vip_gate (cfg\<lparr>SEED_LIMIT := 0\<rparr>) (fr\<lparr>server_status := Some (int n)\<rparr>) it
            = (callmode fr = ''matchend'' \<and> calltype fr = ''player'' \<and> 0 < VIP_WINNERS cfg
               \<and> 0 < VIP_HOURS cfg \<and> second_data fr \<noteq> ''kills'' \<and> it \<le> VIP_WINNERS cfg)"
    by (simp add: vip_gate_def)
  from run res r rc1 gp ll other gate0 show ?thesis by auto
qed


theorem grants_disabled_witness:
  "\<exists>out. get_top ex_cfg ex_rcon_seed ''matchend'' ''player'' [ex_player] (teamplay ex_cfg)
             ''name'' ''combat'' ''support'' [] [ex_player]
           = Inr (out, ex_rcon_seed\<lparr>calls := calls ex_rcon_seed @ [Get_status]\<rparr>)
         \<and> grant_pieces out = []"
proof -
  have h1: "\<forall>s \<in> set [ex_player]. \<exists>k. teamplay ex_cfg s = Inr k"
    by (simp add: teamplay_def)
  have h3: "''name'' \<in> set record_keys" "''combat'' \<in> set record_keys"
    "''support'' \<in> set record_keys" by (simp_all add: record_keys_def)
  have h5: "VIP_WINNERS ex_cfg \<le> 0 \<or> VIP_HOURS ex_cfg \<le> 0
            \<or> current_players ex_rcon_seed < SEED_LIMIT ex_cfg"
    by (simp add: ex_cfg_def ex_rcon_seed_def ex_rcon_def)
  from grants_disabled[OF h1 h3 h5, of "[]" "[ex_player]"]
  show ?thesis by blast
qed

subsection \<open>Records with score 0\<close>





subsection \<open>The commander guard\<close>

lemma ex_commander_run:
  "listing_part ex_cfg ex_frame 1 ex_commander = Inr [(Listing, ''cmd (all): 500 ; 100'' @ nl)]"
  "vip_gate ex_cfg ex_frame 1"
  "role ex_commander = ''armycommander''"
  "support ex_commander < VIP_COMMANDER_MIN_SUPPORT_SCORE ex_cfg"
  "get_top ex_cfg ex_rcon ''matchend'' ''player'' [ex_commander, ex_rifle] (teamplay ex_cfg)
       ''name'' ''combat'' ''support'' [] []
     = Inr ([(Listing, ''cmd (all): 500 ; 100'' @ nl), (Listing, ''r (all): 100 ; 0'' @ nl),
             (Granted, ''VIP until 51400 !'' @ nl)],
            \<lparr>vip_ids = [(''1'', None), (''2'', Some 51400)], current_players = 80,
              clock = 1000,
              calls = [Get_status, Get_vip_ids, Add_vip ''2'' ''r Top-Player'' 51400]\<rparr>)"
  by code_simp+

text \<open>
  C4.  For a record whose role is armycommander and whose (offense + defense) / 20 is below
  \<open>VIP_COMMANDER_MIN_PLAYTIME_MINS\<close> or whose support is below
  \<open>VIP_COMMANDER_MIN_SUPPORT_SCORE\<close>, the loop body appends the pieces of the listing only
  (no grant text, no already-VIP text), leaves the connection as it was (no ledger read, no
  grant), and, where the grant condition holds at its iteration index, leaves the index
  unchanged, so that the next ranked record meets the same index.  With \<open>VIP_WINNERS\<close> 1,
  such a commander ranked first and a rifleman ranked second: the rifleman is given the
  grant.
\<close>

theorem commander_below_minimum_skipped:
  assumes "role s = ''armycommander''"
    and "fl (of_int (offense s + defense s) / 20) < of_int (VIP_COMMANDER_MIN_PLAYTIME_MINS cfg)
         \<or> support s < VIP_COMMANDER_MIN_SUPPORT_SCORE cfg"
  shows "get_top_step cfg fr s (out, it, rc)
           = (case listing_part cfg fr it s of
                Inl e \<Rightarrow> Inl e
              | Inr ls \<Rightarrow> Inr (out @ ls, (if vip_gate cfg fr it then it else it + 1), rc))
       \<and> (\<forall>ls. listing_part cfg fr it s = Inr ls \<longrightarrow> grant_pieces ls = [])
       \<and> VIP_WINNERS ex_cfg = 1
       \<and> get_top ex_cfg ex_rcon ''matchend'' ''player'' [ex_commander, ex_rifle] (teamplay ex_cfg)
            ''name'' ''combat'' ''support'' [] []
          = Inr ([(Listing, ''cmd (all): 500 ; 100'' @ nl), (Listing, ''r (all): 100 ; 0'' @ nl),
                  (Granted, ''VIP until 51400 !'' @ nl)],
                 \<lparr>vip_ids = [(''1'', None), (''2'', Some 51400)], current_players = 80,
                   clock = 1000,
                   calls = [Get_status, Get_vip_ids, Add_vip ''2'' ''r Top-Player'' 51400]\<rparr>)"
proof -
  from assms have g: "commander_guard cfg s" by (simp add: commander_guard_def)
  have st: "get_top_step cfg fr s (out, it, rc)
           = (case listing_part cfg fr it s of
                Inl e \<Rightarrow> Inl e
              | Inr ls \<Rightarrow> Inr (out @ ls, (if vip_gate cfg fr it then it else it + 1), rc))"
    using g by (simp add: get_top_step_def vip_part_def split: sum.splits)
  have gp: "\<forall>ls. listing_part cfg fr it s = Inr ls \<longrightarrow> grant_pieces ls = []"
    using listing_part_lines(2) by blast
  have w: "VIP_WINNERS ex_cfg = 1" by (simp add: ex_cfg_def)
  from st gp w ex_commander_run(5) show ?thesis by blast
qed

theorem commander_below_minimum_skipped_witness:
  "get_top_step ex_cfg ex_frame ex_commander ([], 1, ex_rcon)
     = Inr ([(Listing, ''cmd (all): 500 ; 100'' @ nl)], 1, ex_rcon)"
proof -
  have h2: "fl (of_int (offense ex_commander + defense ex_commander) / 20)
              < of_int (VIP_COMMANDER_MIN_PLAYTIME_MINS ex_cfg)
            \<or> support ex_commander < VIP_COMMANDER_MIN_SUPPORT_SCORE ex_cfg"
    using ex_commander_run(4) by simp
  from commander_below_minimum_skipped[OF ex_commander_run(3) h2, of ex_frame "[]" 1 ex_rcon]
  show ?thesis by (simp add: ex_commander_run(1) ex_commander_run(2))
qed

end
